theory Spec2Isabelle
  imports Main "HOL-Library.Sublist"
begin

section \<open>JSON values and chat messages\<close>

text \<open>
  The proxy handles chat messages as Python dictionaries decoded from JSON.  A JSON value is
  a datatype; an object keeps its members as an association list.  Numbers are integers:
  no function modelled here computes with a fractional number.  A text is a list of
  characters, one for each character Python's \<^verbatim>\<open>len\<close> counts; the functions modelled
  here only compare texts and take their length.
\<close>

datatype json =
    JNull
  | JBool bool
  | JNum int
  | JStr string
  | JArr "json list"
  | JObj "(string \<times> json) list"

text \<open>Python truthiness of a decoded JSON value (\<^verbatim>\<open>if value:\<close>).\<close>

fun truthy :: "json \<Rightarrow> bool" where
  "truthy JNull = False"
| "truthy (JBool b) = b"
| "truthy (JNum n) = (n \<noteq> 0)"
| "truthy (JStr s) = (s \<noteq> [])"
| "truthy (JArr xs) = (xs \<noteq> [])"
| "truthy (JObj kvs) = (kvs \<noteq> [])"

text \<open>
  A message is a dictionary with the keys \<^verbatim>\<open>role\<close>, \<^verbatim>\<open>content\<close>, \<^verbatim>\<open>tool_calls\<close>,
  \<^verbatim>\<open>tool_call_id\<close> and \<^verbatim>\<open>name\<close>, each of which may be absent (\<open>None\<close>).  A tool call
  is a dictionary with the keys \<^verbatim>\<open>id\<close>, \<^verbatim>\<open>type\<close> and \<^verbatim>\<open>function\<close>; the function
  entry has \<^verbatim>\<open>name\<close> and \<^verbatim>\<open>arguments\<close>, where the arguments are either text (the
  external protocol) or a JSON object (the backend protocol).  Equality of records is
  equality of all fields, as \<^verbatim>\<open>==\<close> on Python dictionaries is equality of all entries.
\<close>

record fn_entry =
  fn_name :: "string option"
  fn_arguments :: "json option"

record tool_call =
  tc_id :: "string option"
  tc_type :: "string option"
  tc_function :: "fn_entry option"

record message =
  role :: "string option"
  content :: "json option"
  tool_calls :: "tool_call list option"
  tool_call_id :: "string option"
  name :: "string option"

section \<open>The token estimator (\<^verbatim>\<open>conversation_manager.py\<close>)\<close>

text \<open>
  \<^verbatim>\<open>json.dumps\<close> belongs to the Python library, not to the repository: the serialiser is a
  parameter \<open>dumps\<close> of every function that calls it.  Token counts are Python integers.
\<close>

text \<open>The body of the inner loop over the tool calls of one message.\<close>

definition call_tokens :: "(json \<Rightarrow> string) \<Rightarrow> int \<Rightarrow> tool_call \<Rightarrow> int" where
  "call_tokens dumps tot call =
     (case tc_function call of
        None \<Rightarrow> tot
      | Some f \<Rightarrow>
          (let tot1 = tot + int (length (case fn_name f of None \<Rightarrow> [] | Some n \<Rightarrow> n)) div 4;
               args = (case fn_arguments f of None \<Rightarrow> JStr ''{}'' | Some a \<Rightarrow> a)
           in case args of
                JStr s \<Rightarrow> tot1 + int (length s) div 4
              | JObj kvs \<Rightarrow> tot1 + int (length (dumps (JObj kvs))) div 4
              | _ \<Rightarrow> tot1))"

text \<open>The body of the outer loop: what one message adds to \<^verbatim>\<open>total\<close>.\<close>

definition message_tokens :: "(json \<Rightarrow> string) \<Rightarrow> int \<Rightarrow> message \<Rightarrow> int" where
  "message_tokens dumps tot msg =
     (let tot1 = tot + 4;
          tot2 = (case content msg of
                      Some c \<Rightarrow>
                        (if truthy c
                         then (case c of JStr s \<Rightarrow> tot1 + int (length s) div 4 | _ \<Rightarrow> tot1)
                         else tot1)
                    | None \<Rightarrow> tot1);
          tot3 = (case tool_calls msg of
                      Some tcs \<Rightarrow>
                        (if tcs \<noteq> []
                         then foldl (call_tokens dumps) (tot2 + int (length tcs) * 5) tcs
                         else tot2)
                    | None \<Rightarrow> tot2)
      in if role msg = Some ''tool''
         then (case content msg of
                 Some (JStr s) \<Rightarrow> tot3 + int (length s) div 4
               | _ \<Rightarrow> tot3)
         else tot3)"

definition estimate_token_count :: "(json \<Rightarrow> string) \<Rightarrow> message list \<Rightarrow> int" where
  "estimate_token_count dumps messages = foldl (message_tokens dumps) 0 messages"

subsection \<open>The estimator as the specification words it\<close>

text \<open>
  The specification's formula: 4 tokens per message, a quarter of the length of the text
  content, and per tool call 5 tokens, a quarter of the length of the name and a quarter of
  the length of the serialised arguments.  Arguments that are already text are their own
  serialisation; any other payload is serialised by \<open>dumps\<close>; a call without arguments
  has nothing to serialise.
\<close>

definition content_text :: "message \<Rightarrow> string" where
  "content_text msg = (case content msg of Some (JStr s) \<Rightarrow> s | _ \<Rightarrow> [])"

definition call_name :: "tool_call \<Rightarrow> string" where
  "call_name call =
     (case tc_function call of
        None \<Rightarrow> []
      | Some f \<Rightarrow> (case fn_name f of None \<Rightarrow> [] | Some n \<Rightarrow> n))"

definition message_calls :: "message \<Rightarrow> tool_call list" where
  "message_calls msg = (case tool_calls msg of None \<Rightarrow> [] | Some tcs \<Rightarrow> tcs)"

definition spec_serialized_arguments :: "(json \<Rightarrow> string) \<Rightarrow> tool_call \<Rightarrow> string" where
  "spec_serialized_arguments dumps call =
     (case tc_function call of
        None \<Rightarrow> []
      | Some f \<Rightarrow>
          (case fn_arguments f of
             None \<Rightarrow> []
           | Some (JStr s) \<Rightarrow> s
           | Some v \<Rightarrow> dumps v))"

definition spec_call_tokens :: "(json \<Rightarrow> string) \<Rightarrow> tool_call \<Rightarrow> int" where
  "spec_call_tokens dumps call =
     5 + int (length (call_name call)) div 4
       + int (length (spec_serialized_arguments dumps call)) div 4"

definition spec_message_tokens :: "(json \<Rightarrow> string) \<Rightarrow> message \<Rightarrow> int" where
  "spec_message_tokens dumps msg =
     4 + int (length (content_text msg)) div 4
       + sum_list (map (spec_call_tokens dumps) (message_calls msg))"

definition spec_token_count :: "(json \<Rightarrow> string) \<Rightarrow> message list \<Rightarrow> int" where
  "spec_token_count dumps messages = sum_list (map (spec_message_tokens dumps) messages)"

subsection \<open>The formula the code computes\<close>

text \<open>
  The arguments the code counts: text as it is, an object through \<open>dumps\<close>, the default
  \<^verbatim>\<open>"{}"\<close> when the key is missing, and nothing for a value of any other type.
\<close>

definition counted_arguments :: "(json \<Rightarrow> string) \<Rightarrow> tool_call \<Rightarrow> string" where
  "counted_arguments dumps call =
     (case tc_function call of
        None \<Rightarrow> []
      | Some f \<Rightarrow>
          (case fn_arguments f of
             None \<Rightarrow> ''{}''
           | Some (JStr s) \<Rightarrow> s
           | Some (JObj kvs) \<Rightarrow> dumps (JObj kvs)
           | Some _ \<Rightarrow> []))"

definition counted_call_tokens :: "(json \<Rightarrow> string) \<Rightarrow> tool_call \<Rightarrow> int" where
  "counted_call_tokens dumps call =
     5 + int (length (call_name call)) div 4
       + int (length (counted_arguments dumps call)) div 4"

definition counted_message_tokens :: "(json \<Rightarrow> string) \<Rightarrow> message \<Rightarrow> int" where
  "counted_message_tokens dumps msg =
     4 + int (length (content_text msg)) div 4
       + sum_list (map (counted_call_tokens dumps) (message_calls msg))"

text \<open>What the code adds on top: the text of a tool-role message once more.\<close>

definition tool_response_tokens :: "message \<Rightarrow> int" where
  "tool_response_tokens msg =
     (if role msg = Some ''tool'' then int (length (content_text msg)) div 4 else 0)"

definition amended_token_count :: "(json \<Rightarrow> string) \<Rightarrow> message list \<Rightarrow> int" where
  "amended_token_count dumps messages =
     sum_list (map (\<lambda>m. counted_message_tokens dumps m + tool_response_tokens m) messages)"

section \<open>The context budgeter (\<^verbatim>\<open>conversation_manager.py\<close>)\<close>

subsection \<open>\<^verbatim>\<open>_identify_tool_sequences\<close>\<close>

text \<open>
  The loop keeps three variables: the sequences closed so far, the sequence being built,
  and the flag \<^verbatim>\<open>in_tool_sequence\<close>.  One step of the loop is \<open>seq_step\<close>, with the four
  cases of the source in the source's order.
\<close>

record seq_state =
  sequences :: "message list list"
  current_sequence :: "message list"
  in_tool_sequence :: bool

definition has_tool_calls :: "message \<Rightarrow> bool" where
  "has_tool_calls msg = (case tool_calls msg of None \<Rightarrow> False | Some tcs \<Rightarrow> tcs \<noteq> [])"

definition role_of :: "message \<Rightarrow> string" where
  "role_of msg = (case role msg of None \<Rightarrow> [] | Some r \<Rightarrow> r)"

definition seq_step :: "seq_state \<Rightarrow> message \<Rightarrow> seq_state" where
  "seq_step st msg =
     (if role_of msg = ''assistant'' \<and> has_tool_calls msg then
        \<lparr>sequences = (if current_sequence st \<noteq> []
                       then sequences st @ [current_sequence st] else sequences st),
         current_sequence = [msg],
         in_tool_sequence = True\<rparr>
      else if role_of msg = ''tool'' \<and> in_tool_sequence st then
        st\<lparr>current_sequence := current_sequence st @ [msg]\<rparr>
      else if in_tool_sequence st \<and> role_of msg \<noteq> ''tool'' then
        \<lparr>sequences = sequences st @ [current_sequence st],
         current_sequence = [msg],
         in_tool_sequence = False\<rparr>
      else if current_sequence st \<noteq> [] then
        st\<lparr>sequences := sequences st @ [current_sequence st], current_sequence := [msg]\<rparr>
      else
        st\<lparr>current_sequence := [msg]\<rparr>)"

definition identify_tool_sequences :: "message list \<Rightarrow> message list list" where
  "identify_tool_sequences messages =
     (let st = foldl seq_step
                 \<lparr>sequences = [], current_sequence = [], in_tool_sequence = False\<rparr> messages
      in if current_sequence st \<noteq> [] then sequences st @ [current_sequence st]
         else sequences st)"

subsection \<open>\<^verbatim>\<open>manage_context_window\<close>\<close>

text \<open>
  The low-budget loop walks the reversed list, puts each message that fits in front of
  \<^verbatim>\<open>last_messages\<close> and stops (\<^verbatim>\<open>break\<close>) at the first message that does not fit.
\<close>

fun tail_fill :: "(json \<Rightarrow> string) \<Rightarrow> message list \<Rightarrow> int \<Rightarrow> message list \<Rightarrow> message list" where
  "tail_fill dumps [] remaining_tokens last_messages = last_messages"
| "tail_fill dumps (msg # rest) remaining_tokens last_messages =
     (let msg_tokens = estimate_token_count dumps [msg]
      in if msg_tokens \<le> remaining_tokens
         then tail_fill dumps rest (remaining_tokens - msg_tokens) (msg # last_messages)
         else last_messages)"

text \<open>
  One step of the sequence loop, on the pair of \<^verbatim>\<open>result\<close> and \<^verbatim>\<open>remaining_tokens\<close>.  A
  sequence that fits is appended and paid for.  Of a sequence that does not fit, the last
  message is appended when it fits alone; the source does not pay for it and does not leave
  the loop.
\<close>

definition pack_step ::
  "(json \<Rightarrow> string) \<Rightarrow> message list \<times> int \<Rightarrow> message list \<Rightarrow> message list \<times> int" where
  "pack_step dumps st sequence =
     (let result = fst st; remaining_tokens = snd st;
          seq_tokens = estimate_token_count dumps sequence
      in if seq_tokens \<le> remaining_tokens
         then (result @ sequence, remaining_tokens - seq_tokens)
         else if sequence \<noteq> [] \<and> remaining_tokens > 0
         then (let last_msg = last sequence;
                   last_tokens = estimate_token_count dumps [last_msg]
               in if last_tokens \<le> remaining_tokens
                  then (result @ [last_msg], remaining_tokens)
                  else (result, remaining_tokens))
         else (result, remaining_tokens))"

text \<open>\<^verbatim>\<open>messages.index(x)\<close>: the position of the first element equal to \<open>x\<close>.\<close>

fun index_of :: "'a list \<Rightarrow> 'a \<Rightarrow> nat" where
  "index_of [] x = 0"
| "index_of (y # ys) x = (if y = x then 0 else Suc (index_of ys x))"

text \<open>The sort key \<^verbatim>\<open>lambda x: messages.index(x) if x in messages else 0\<close>.\<close>

definition original_position :: "message list \<Rightarrow> message \<Rightarrow> nat" where
  "original_position messages x = (if x \<in> set messages then index_of messages x else 0)"

text \<open>
  The system message, when the list starts with one, moves to \<^verbatim>\<open>result\<close> and the name
  \<^verbatim>\<open>messages\<close> is rebound to the rest: the sort key looks positions up in that rest.
  Python's \<^verbatim>\<open>sorted\<close> is stable, as \<open>sort_key\<close> is.
\<close>

definition system_part :: "message list \<Rightarrow> message list" where
  "system_part messages =
     (if role (hd messages) = Some ''system'' then [hd messages] else [])"

definition stripped :: "message list \<Rightarrow> message list" where
  "stripped messages =
     (if role (hd messages) = Some ''system'' then tl messages else messages)"

definition manage_context_window ::
  "(json \<Rightarrow> string) \<Rightarrow> message list \<Rightarrow> int \<Rightarrow> message list" where
  "manage_context_window dumps messages max_tokens =
     (if messages = [] then []
      else if estimate_token_count dumps messages \<le> max_tokens then messages
      else
        (let result = system_part messages;
             messages' = stripped messages;
             system_tokens = estimate_token_count dumps result;
             remaining_tokens = max_tokens - system_tokens
         in if remaining_tokens < 1000
            then result @ tail_fill dumps (rev messages') remaining_tokens []
            else
              (let sequences = identify_tool_sequences messages';
                   packed = foldl (pack_step dumps) (result, remaining_tokens) (rev sequences)
               in sort_key (original_position messages') (fst packed))))"

subsection \<open>The shape of a sequence\<close>

text \<open>
  A tool sequence is an assistant message that carries tool calls, followed by tool-role
  messages only.  Every sequence the partition returns is a tool sequence or one message.
\<close>

definition is_tool_sequence :: "message list \<Rightarrow> bool" where
  "is_tool_sequence s =
     (case s of
        [] \<Rightarrow> False
      | a # ts \<Rightarrow> role_of a = ''assistant'' \<and> has_tool_calls a
                  \<and> list_all (\<lambda>t. role_of t = ''tool'') ts)"

definition sequence_shape :: "message list \<Rightarrow> bool" where
  "sequence_shape s = (is_tool_sequence s \<or> length s = 1)"

text \<open>The invariant of the partition loop.\<close>

definition seq_inv :: "seq_state \<Rightarrow> bool" where
  "seq_inv st =
     (list_all sequence_shape (sequences st) \<and>
      (if in_tool_sequence st then is_tool_sequence (current_sequence st)
       else length (current_sequence st) \<le> 1))"








section \<open>The protocol translator (\<^verbatim>\<open>main.py\<close>, \<^verbatim>\<open>proxy.py\<close>)\<close>

text \<open>
  Exceptions the modelled functions can raise.  A subscript on a dictionary that lacks the
  key raises \<^verbatim>\<open>KeyError\<close>; calling \<^verbatim>\<open>.get\<close> on a value that is not a dictionary
  raises \<^verbatim>\<open>AttributeError\<close>; \<^verbatim>\<open>json.loads\<close> raises \<^verbatim>\<open>JSONDecodeError\<close> on text that
  is not JSON and \<^verbatim>\<open>TypeError\<close> on a value that is not text; \<^verbatim>\<open>_resolve_path\<close> raises
  \<^verbatim>\<open>ValueError\<close>.
\<close>

datatype error =
    KeyError string
  | AttributeError
  | JSONDecodeError
  | TypeError
  | ValueError string

subsection \<open>Tool calls: \<^verbatim>\<open>transform_tool_calls\<close>\<close>

text \<open>Python's \<^verbatim>\<open>str\<close> of a non-negative integer, for the identifier \<^verbatim>\<open>call_<i>\<close>.\<close>

definition digit_char :: "nat \<Rightarrow> char" where
  "digit_char d = ''0123456789'' ! d"

function str_nat :: "nat \<Rightarrow> string" where
  "str_nat n =
     (if n < 10 then [digit_char n] else str_nat (n div 10) @ [digit_char (n mod 10)])"
  by pat_completeness auto
termination
  by (relation "measure id") auto

declare str_nat.simps [simp del]

text \<open>
  One element of the list comprehension.  The backend call is read with the subscripts
  \<^verbatim>\<open>call["function"]["name"]\<close> and \<^verbatim>\<open>call["function"]["arguments"]\<close>, each of which
  raises when the key is missing; the identifier falls back to \<^verbatim>\<open>call_<i>\<close>, and the
  arguments are serialised to text.
\<close>

definition transform_call :: "(json \<Rightarrow> string) \<Rightarrow> nat \<Rightarrow> tool_call \<Rightarrow> error + tool_call" where
  "transform_call dumps i call =
     (case tc_function call of
        None \<Rightarrow> Inl (KeyError ''function'')
      | Some f \<Rightarrow>
          (case fn_name f of
             None \<Rightarrow> Inl (KeyError ''name'')
           | Some n \<Rightarrow>
               (case fn_arguments f of
                  None \<Rightarrow> Inl (KeyError ''arguments'')
                | Some a \<Rightarrow>
                    Inr \<lparr>tc_id = Some (case tc_id call of
                                         None \<Rightarrow> ''call_'' @ str_nat i
                                       | Some x \<Rightarrow> x),
                         tc_type = Some ''function'',
                         tc_function =
                           Some \<lparr>fn_name = Some n, fn_arguments = Some (JStr (dumps a))\<rparr>\<rparr>)))"

fun transform_tool_calls_from ::
  "(json \<Rightarrow> string) \<Rightarrow> nat \<Rightarrow> tool_call list \<Rightarrow> error + tool_call list" where
  "transform_tool_calls_from dumps i [] = Inr []"
| "transform_tool_calls_from dumps i (call # calls) =
     (case transform_call dumps i call of
        Inl e \<Rightarrow> Inl e
      | Inr c \<Rightarrow>
          (case transform_tool_calls_from dumps (Suc i) calls of
             Inl e \<Rightarrow> Inl e
           | Inr cs \<Rightarrow> Inr (c # cs)))"

definition transform_tool_calls ::
  "(json \<Rightarrow> string) \<Rightarrow> tool_call list \<Rightarrow> error + tool_call list" where
  "transform_tool_calls dumps calls = transform_tool_calls_from dumps 0 calls"

subsection \<open>Backend responses and external responses\<close>

text \<open>
  What the backend sends is decoded JSON.  The decoded value is a dictionary
  \<^verbatim>\<open>{message?, done?, id?, created?, model?}\<close> or it is not a dictionary at all (a list,
  a text, a number, null).  The entry \<^verbatim>\<open>message\<close> of that dictionary is read with
  \<^verbatim>\<open>.get("message", {}).get(...)\<close>: the key is missing, or its value is not a dictionary
  (null included), or it is a dictionary \<^verbatim>\<open>{content?, tool_calls?}\<close>.  In the other
  entries \<open>None\<close> is a missing key, and a value is any JSON value, null included; only
  \<open>bm_tool_calls = None\<close> also stands for \<^verbatim>\<open>tool_calls: null\<close>, which the code, testing
  truthiness, cannot tell from a missing key.  Tool calls, when there are any, are a list
  of dictionaries whose identifiers and names are text, as the record \<open>tool_call\<close> has
  them.
\<close>

datatype 'a entry = Missing | NotObject | Object 'a

record backend_message =
  bm_content :: "json option"
  bm_tool_calls :: "tool_call list option"

record backend_chunk =
  bc_message :: "backend_message entry"
  bc_done :: "json option"
  bc_id :: "json option"
  bc_created :: "json option"
  bc_model :: "json option"

datatype decoded = NoDict | Dict backend_chunk

text \<open>
  \<^verbatim>\<open>chunk.get("message", {}).get(key)\<close>: nothing when the message is missing, the entry of
  the message when it is a dictionary, and \<^verbatim>\<open>AttributeError\<close> when it is anything else.
\<close>

definition message_get :: "backend_chunk \<Rightarrow> (backend_message \<Rightarrow> 'a option) \<Rightarrow> error + 'a option" where
  "message_get chunk key =
     (case bc_message chunk of
        Missing \<Rightarrow> Inr None
      | NotObject \<Rightarrow> Inl AttributeError
      | Object m \<Rightarrow> Inr (key m))"

text \<open>Truthiness of what \<^verbatim>\<open>.get("tool_calls")\<close> returned, and of an optional value.\<close>

definition has_calls :: "tool_call list option \<Rightarrow> bool" where
  "has_calls calls = (case calls of None \<Rightarrow> False | Some tcs \<Rightarrow> tcs \<noteq> [])"

definition truthy_entry :: "json option \<Rightarrow> bool" where
  "truthy_entry v = (case v of None \<Rightarrow> False | Some c \<Rightarrow> truthy c)"

definition get_or :: "'a option \<Rightarrow> 'a \<Rightarrow> 'a" where
  "get_or v d = (case v of None \<Rightarrow> d | Some x \<Rightarrow> x)"

text \<open>
  An entry of an external response message is absent, present with the value \<^verbatim>\<open>null\<close>,
  or present with a value.
\<close>

datatype 'a field = Absent | Null | Value 'a

record response_message =
  rm_role :: string
  rm_content :: "json field"
  rm_tool_calls :: "tool_call list field"

record choice =
  ch_index :: nat
  ch_message :: response_message
  ch_finish_reason :: string

record usage =
  prompt_tokens :: nat
  completion_tokens :: nat
  total_tokens :: nat

record completion =
  cp_id :: json
  cp_object :: string
  cp_created :: json
  cp_model :: json
  cp_choices :: "choice list"
  cp_usage :: "usage option"



subsection \<open>Streams\<close>

text \<open>
  A line of the backend stream is blank (skipped), is not JSON (\<^verbatim>\<open>json.loads\<close> raises and
  the line is skipped), or decodes to a JSON value.  A frame of the outgoing stream is the
  text \<^verbatim>\<open>data: <json>\<close> of a chunk, or the sentinel \<^verbatim>\<open>data: [DONE]\<close>.
\<close>

datatype line = Blank | Malformed | Parsed decoded

record delta =
  delta_role :: "string option"
  delta_content :: "json option"
  delta_tool_calls :: "tool_call list option"

record completion_chunk =
  ck_id :: json
  ck_object :: string
  ck_created :: json
  ck_model :: json
  ck_index :: nat
  ck_delta :: delta
  ck_finish_reason :: "string option"

datatype frame = Data completion_chunk | Done

definition empty_delta :: delta where
  "empty_delta = \<lparr>delta_role = None, delta_content = None, delta_tool_calls = None\<rparr>"

text \<open>The chunk dictionary that \<^verbatim>\<open>transform_ollama_stream\<close> builds in its three branches.\<close>

definition openai_chunk :: "backend_chunk \<Rightarrow> delta \<Rightarrow> string option \<Rightarrow> completion_chunk" where
  "openai_chunk chunk d finish =
     \<lparr>ck_id = get_or (bc_id chunk) (JStr []),
      ck_object = ''chat.completion.chunk'',
      ck_created = get_or (bc_created chunk) (JNum 0),
      ck_model = get_or (bc_model chunk) (JStr []),
      ck_index = 0,
      ck_delta = d,
      ck_finish_reason = finish\<rparr>"

text \<open>
  The frames one decoded line yields in \<^verbatim>\<open>transform_ollama_stream\<close>: a tool-call frame,
  else a content frame when the content is truthy, and after either a finish frame when
  \<^verbatim>\<open>done\<close> is truthy.  The \<^verbatim>\<open>try\<close> catches \<^verbatim>\<open>JSONDecodeError\<close> only: the
  \<^verbatim>\<open>AttributeError\<close> of a line or a message that is not a dictionary and the exception of
  \<^verbatim>\<open>transform_tool_calls\<close> leave the generator before the line yields anything.
\<close>

definition chunk_frames :: "(json \<Rightarrow> string) \<Rightarrow> decoded \<Rightarrow> error + frame list" where
  "chunk_frames dumps line_value =
     (case line_value of
        NoDict \<Rightarrow> Inl AttributeError
      | Dict chunk \<Rightarrow>
          (let finish = (if truthy_entry (bc_done chunk)
                         then [Data (openai_chunk chunk empty_delta (Some ''stop''))] else [])
           in case message_get chunk bm_tool_calls of
                Inl e \<Rightarrow> Inl e
              | Inr calls \<Rightarrow>
                  if has_calls calls then
                    (case transform_tool_calls dumps (get_or calls []) of
                       Inl e \<Rightarrow> Inl e
                     | Inr tcs \<Rightarrow>
                         Inr (Data (openai_chunk chunk
                                      (empty_delta\<lparr>delta_tool_calls := Some tcs\<rparr>) None)
                              # finish))
                  else
                    (case message_get chunk bm_content of
                       Inl e \<Rightarrow> Inl e
                     | Inr found \<Rightarrow>
                         if truthy_entry found then
                           Inr (Data (openai_chunk chunk
                                        (empty_delta\<lparr>delta_content := found\<rparr>) None)
                                # finish)
                         else Inr finish)))"

text \<open>
  The generator: the frames it yields, and the exception that ended it if one did.  After
  the last line it yields the sentinel.
\<close>

fun transform_ollama_stream :: "(json \<Rightarrow> string) \<Rightarrow> line list \<Rightarrow> frame list \<times> error option" where
  "transform_ollama_stream dumps [] = ([Done], None)"
| "transform_ollama_stream dumps (Blank # rest) = transform_ollama_stream dumps rest"
| "transform_ollama_stream dumps (Malformed # rest) = transform_ollama_stream dumps rest"
| "transform_ollama_stream dumps (Parsed line_value # rest) =
     (case chunk_frames dumps line_value of
        Inl e \<Rightarrow> ([], Some e)
      | Inr frames \<Rightarrow>
          (let later = transform_ollama_stream dumps rest
           in (frames @ fst later, snd later)))"

text \<open>
  \<^verbatim>\<open>process_streaming_response\<close> in \<^verbatim>\<open>proxy.py\<close>: a first frame that announces the role,
  one content frame per line with truthy content, then the finish frame and the sentinel.
  Here too the \<^verbatim>\<open>try\<close> catches \<^verbatim>\<open>JSONDecodeError\<close> only, so a line or a message that
  is not a dictionary ends the generator with \<^verbatim>\<open>AttributeError\<close>, before the finish
  frame and the sentinel.
\<close>

definition proxy_chunk :: "string \<Rightarrow> int \<Rightarrow> string \<Rightarrow> delta \<Rightarrow> string option \<Rightarrow> completion_chunk" where
  "proxy_chunk chat_id creation_time model_name d finish =
     \<lparr>ck_id = JStr chat_id,
      ck_object = ''chat.completion.chunk'',
      ck_created = JNum creation_time,
      ck_model = JStr model_name,
      ck_index = 0,
      ck_delta = d,
      ck_finish_reason = finish\<rparr>"

text \<open>The loop over the lines: the content frames, and the exception if one ended it.\<close>

fun content_frames ::
  "string \<Rightarrow> int \<Rightarrow> string \<Rightarrow> line list \<Rightarrow> frame list \<times> error option" where
  "content_frames chat_id creation_time model_name [] = ([], None)"
| "content_frames chat_id creation_time model_name (Blank # rest) =
     content_frames chat_id creation_time model_name rest"
| "content_frames chat_id creation_time model_name (Malformed # rest) =
     content_frames chat_id creation_time model_name rest"
| "content_frames chat_id creation_time model_name (Parsed NoDict # rest) =
     ([], Some AttributeError)"
| "content_frames chat_id creation_time model_name (Parsed (Dict chunk_data) # rest) =
     (case message_get chunk_data bm_content of
        Inl e \<Rightarrow> ([], Some e)
      | Inr entry \<Rightarrow>
          (let content = get_or entry (JStr []);
               later = content_frames chat_id creation_time model_name rest
           in if truthy content
              then (Data (proxy_chunk chat_id creation_time model_name
                            (empty_delta\<lparr>delta_content := Some content\<rparr>) None)
                    # fst later, snd later)
              else later))"

definition process_streaming_response ::
  "string \<Rightarrow> int \<Rightarrow> line list \<Rightarrow> string \<Rightarrow> frame list \<times> error option" where
  "process_streaming_response chat_id creation_time lines model_name =
     (let first_chunk = Data (proxy_chunk chat_id creation_time model_name
                                (empty_delta\<lparr>delta_role := Some ''assistant''\<rparr>) None);
          body = content_frames chat_id creation_time model_name lines
      in case snd body of
           Some e \<Rightarrow> (first_chunk # fst body, Some e)
         | None \<Rightarrow>
             (first_chunk # fst body
                @ [Data (proxy_chunk chat_id creation_time model_name empty_delta
                           (Some ''stop'')),
                   Done],
              None))"

text \<open>The three backend lines of the stream-framing property.\<close>

definition content_line :: "string \<Rightarrow> line" where
  "content_line text =
     Parsed (Dict \<lparr>bc_message = Object \<lparr>bm_content = Some (JStr text), bm_tool_calls = None\<rparr>,
                   bc_done = None, bc_id = None, bc_created = None, bc_model = None\<rparr>)"

definition done_line :: line where
  "done_line =
     Parsed (Dict \<lparr>bc_message = Missing, bc_done = Some (JBool True), bc_id = None,
                   bc_created = None, bc_model = None\<rparr>)"










definition null_message_response :: decoded where
  "null_message_response =
     Dict \<lparr>bc_message = NotObject, bc_done = Some (JBool True), bc_id = None,
           bc_created = None, bc_model = Some (JStr ''llama3.1'')\<rparr>"

section \<open>The tool executor (\<^verbatim>\<open>tool_executor.py\<close>)\<close>

subsection \<open>\<^verbatim>\<open>execute_tool\<close>\<close>

text \<open>
  The registry maps eleven names to methods.  What a method does is outside the
  orchestration: a handler takes the decoded arguments and the state of the world it acts
  on (workspace, processes) and returns the new state with either a result dictionary or
  the text of the exception it raised.  Calling \<^verbatim>\<open>handler(**arguments)\<close> with arguments
  that do not match the method's parameters raises inside the same \<^verbatim>\<open>try\<close>, so it is one
  of the exceptions of the handler.
\<close>

definition handler_names :: "string list" where
  "handler_names =
     [''builtin_read_file'', ''builtin_edit_existing_file'', ''builtin_create_new_file'',
      ''builtin_run_terminal_command'', ''builtin_grep_search'', ''builtin_file_glob_search'',
      ''builtin_search_web'', ''builtin_view_diff'', ''builtin_read_currently_open_file'',
      ''builtin_ls'', ''builtin_create_rule_block'']"

definition error_result :: "string \<Rightarrow> json" where
  "error_result msg = JObj [(''error'', JStr msg)]"

type_synonym 'w handler = "json \<Rightarrow> 'w \<Rightarrow> (string + json) \<times> 'w"

definition execute_tool :: "(string \<Rightarrow> 'w handler) \<Rightarrow> string \<Rightarrow> json \<Rightarrow> 'w \<Rightarrow> json \<times> 'w" where
  "execute_tool handlers tool_name arguments w =
     (if tool_name \<notin> set handler_names
      then (error_result (''Unknown tool: '' @ tool_name), w)
      else (case handlers tool_name arguments w of
              (Inr result, w') \<Rightarrow> (result, w')
            | (Inl e, w') \<Rightarrow> (error_result (''Tool execution failed: '' @ e), w')))"

subsection \<open>\<^verbatim>\<open>_resolve_path\<close> and the file tools\<close>

text \<open>
  The path operations of \<^verbatim>\<open>pathlib\<close> and the file system are the platform's: joining a
  path to the workspace, resolving a path (which follows the links of the file system),
  and reading, writing and listing.  They are the fields of a record the tools take as a
  parameter.  A path is its string form.  An operation that can raise returns the text of
  the exception; a writing operation returns the file system it leaves.
\<close>

record 'fs platform =
  os_joinpath :: "string \<Rightarrow> string \<Rightarrow> string"
  os_resolve :: "'fs \<Rightarrow> string \<Rightarrow> string"
  os_exists :: "'fs \<Rightarrow> string \<Rightarrow> bool"
  os_is_dir :: "'fs \<Rightarrow> string \<Rightarrow> bool"
  os_read_text :: "'fs \<Rightarrow> string \<Rightarrow> string + string"
  os_write_text :: "'fs \<Rightarrow> string \<Rightarrow> string \<Rightarrow> string option \<times> 'fs"
  os_mkdir_parent :: "'fs \<Rightarrow> string \<Rightarrow> string option \<times> 'fs"
  os_iterdir_names :: "'fs \<Rightarrow> string \<Rightarrow> string + string list"
  os_walk_files :: "'fs \<Rightarrow> string \<Rightarrow> string \<Rightarrow> string + string list"

definition resolve_path :: "'fs platform \<Rightarrow> string \<Rightarrow> 'fs \<Rightarrow> string \<Rightarrow> error + string" where
  "resolve_path os workspace fs filepath =
     (let path = os_resolve os fs (os_joinpath os workspace filepath)
      in if \<not> prefix (os_resolve os fs workspace) path
         then Inl (ValueError (''Path traversal detected: '' @ filepath))
         else Inr path)"

text \<open>\<^verbatim>\<open>str(e)\<close> of an exception.\<close>

fun str_error :: "error \<Rightarrow> string" where
  "str_error (ValueError msg) = msg"
| "str_error (KeyError k) = [CHR 0x27] @ k @ [CHR 0x27]"
| "str_error JSONDecodeError = ''Expecting value''"
| "str_error TypeError = ''TypeError''"

definition read_file :: "'fs platform \<Rightarrow> string \<Rightarrow> 'fs \<Rightarrow> string \<Rightarrow> json" where
  "read_file os workspace fs filepath =
     (case resolve_path os workspace fs filepath of
        Inl e \<Rightarrow> error_result (str_error e)
      | Inr path \<Rightarrow>
          if \<not> os_exists os fs path then error_result (''File not found: '' @ filepath)
          else (case os_read_text os fs path of
                  Inl msg \<Rightarrow> error_result msg
                | Inr text \<Rightarrow> JObj [(''content'', JStr text)]))"

definition success_result :: "string \<Rightarrow> json" where
  "success_result msg = JObj [(''success'', JBool True), (''message'', JStr msg)]"

definition edit_existing_file ::
  "'fs platform \<Rightarrow> string \<Rightarrow> 'fs \<Rightarrow> string \<Rightarrow> string \<Rightarrow> json \<times> 'fs" where
  "edit_existing_file os workspace fs filepath changes =
     (case resolve_path os workspace fs filepath of
        Inl e \<Rightarrow> (error_result (str_error e), fs)
      | Inr path \<Rightarrow>
          if \<not> os_exists os fs path then (error_result (''File not found: '' @ filepath), fs)
          else (case os_write_text os fs path changes of
                  (Some msg, fs') \<Rightarrow> (error_result msg, fs')
                | (None, fs') \<Rightarrow>
                    (success_result (''File '' @ filepath @ '' updated successfully''), fs')))"

definition create_new_file ::
  "'fs platform \<Rightarrow> string \<Rightarrow> 'fs \<Rightarrow> string \<Rightarrow> string \<Rightarrow> json \<times> 'fs" where
  "create_new_file os workspace fs filepath contents =
     (case resolve_path os workspace fs filepath of
        Inl e \<Rightarrow> (error_result (str_error e), fs)
      | Inr path \<Rightarrow>
          (case os_mkdir_parent os fs path of
             (Some msg, fs') \<Rightarrow> (error_result msg, fs')
           | (None, fs') \<Rightarrow>
               (case os_write_text os fs' path contents of
                  (Some msg, fs'') \<Rightarrow> (error_result msg, fs'')
                | (None, fs'') \<Rightarrow>
                    (success_result (''File '' @ filepath @ '' created successfully''), fs''))))"

definition list_directory :: "'fs platform \<Rightarrow> string \<Rightarrow> 'fs \<Rightarrow> string \<Rightarrow> bool \<Rightarrow> json" where
  "list_directory os workspace fs dirPath recursive =
     (case resolve_path os workspace fs dirPath of
        Inl e \<Rightarrow> error_result (str_error e)
      | Inr path \<Rightarrow>
          if \<not> os_exists os fs path \<or> \<not> os_is_dir os fs path
          then error_result (''Directory not found: '' @ dirPath)
          else (case (if recursive then os_walk_files os fs path workspace
                      else os_iterdir_names os fs path) of
                  Inl msg \<Rightarrow> error_result msg
                | Inr files \<Rightarrow> JObj [(''files'', JArr (map JStr files))]))"

text \<open>
  A platform for the concrete runs: no links, so a path resolves to itself; joining an
  absolute path to the workspace gives that path, as \<^verbatim>\<open>pathlib\<close> does; the file system is
  a map from paths to contents.
\<close>

definition plain_platform :: "(string \<rightharpoonup> string) platform" where
  "plain_platform =
     \<lparr>os_joinpath = (\<lambda>w f. if take 1 f = ''/'' then f else w @ ''/'' @ f),
      os_resolve = (\<lambda>fs p. p),
      os_exists = (\<lambda>fs p. fs p \<noteq> None),
      os_is_dir = (\<lambda>fs p. False),
      os_read_text = (\<lambda>fs p. case fs p of None \<Rightarrow> Inl ''No such file'' | Some t \<Rightarrow> Inr t),
      os_write_text = (\<lambda>fs p t. (None, fs(p \<mapsto> t))),
      os_mkdir_parent = (\<lambda>fs p. (None, fs)),
      os_iterdir_names = (\<lambda>fs p. Inl ''Not a directory''),
      os_walk_files = (\<lambda>fs p w. Inr [])\<rparr>"

section \<open>The tool orchestrator (\<^verbatim>\<open>main.py\<close>)\<close>

text \<open>
  The state the orchestration acts on: the session store of the conversation manager, the
  counter of tool executions of the metrics, and the world of the handlers.
\<close>

record 'w orchestrator =
  store :: "string \<rightharpoonup> message list"
  tool_executions :: "string \<Rightarrow> nat"
  world :: 'w

text \<open>\<^verbatim>\<open>save_message\<close>: the list replaces what the store holds for the session.\<close>

definition save_message :: "string \<Rightarrow> message list \<Rightarrow> 'w orchestrator \<Rightarrow> 'w orchestrator" where
  "save_message session_id messages st = st\<lparr>store := (store st)(session_id \<mapsto> messages)\<rparr>"

definition tool_message :: "string \<Rightarrow> string \<Rightarrow> string \<Rightarrow> message" where
  "tool_message call_id tool_name text =
     \<lparr>role = Some ''tool'', content = Some (JStr text), tool_calls = None,
      tool_call_id = Some call_id, name = Some tool_name\<rparr>"

text \<open>
  The body of the loop of \<^verbatim>\<open>handle_tool_calls\<close>, in the order of the source: the name and
  the arguments are read and decoded (\<open>loads\<close> is \<^verbatim>\<open>json.loads\<close>, \<open>None\<close> when it raises),
  the metric is incremented, the tool is executed, and the tool message is built, which
  reads \<^verbatim>\<open>call["id"]\<close>.  An exception ends the coroutine; the state it leaves is not tracked.
\<close>

definition handle_call ::
  "(string \<Rightarrow> json option) \<Rightarrow> (json \<Rightarrow> string) \<Rightarrow> (string \<Rightarrow> 'w handler) \<Rightarrow>
   message list \<times> 'w orchestrator \<Rightarrow> tool_call \<Rightarrow> error + message list \<times> 'w orchestrator" where
  "handle_call loads dumps handlers acc call =
     (let new_messages = fst acc; st = snd acc
      in case tc_function call of
           None \<Rightarrow> Inl (KeyError ''function'')
         | Some f \<Rightarrow>
             (case fn_name f of
                None \<Rightarrow> Inl (KeyError ''name'')
              | Some tool_name \<Rightarrow>
                  (case fn_arguments f of
                     None \<Rightarrow> Inl (KeyError ''arguments'')
                   | Some (JStr text) \<Rightarrow>
                       (case loads text of
                          None \<Rightarrow> Inl JSONDecodeError
                        | Some tool_arguments \<Rightarrow>
                            (let counted = st\<lparr>tool_executions :=
                                   (tool_executions st)
                                     (tool_name := Suc (tool_executions st tool_name))\<rparr>;
                                 executed = execute_tool handlers tool_name tool_arguments
                                              (world counted)
                             in case tc_id call of
                                  None \<Rightarrow> Inl (KeyError ''id'')
                                | Some call_id \<Rightarrow>
                                    Inr (new_messages
                                           @ [tool_message call_id tool_name
                                                (dumps (fst executed))],
                                         counted\<lparr>world := snd executed\<rparr>)))
                   | Some other \<Rightarrow> Inl TypeError)))"

fun handle_calls ::
  "(string \<Rightarrow> json option) \<Rightarrow> (json \<Rightarrow> string) \<Rightarrow> (string \<Rightarrow> 'w handler) \<Rightarrow>
   message list \<times> 'w orchestrator \<Rightarrow> tool_call list \<Rightarrow> error + message list \<times> 'w orchestrator" where
  "handle_calls loads dumps handlers acc [] = Inr acc"
| "handle_calls loads dumps handlers acc (call # calls) =
     (case handle_call loads dumps handlers acc call of
        Inl e \<Rightarrow> Inl e
      | Inr acc' \<Rightarrow> handle_calls loads dumps handlers acc' calls)"

definition assistant_message :: "tool_call list \<Rightarrow> message" where
  "assistant_message tcs =
     \<lparr>role = Some ''assistant'', content = None, tool_calls = Some tcs,
      tool_call_id = None, name = None\<rparr>"

definition handle_tool_calls ::
  "(string \<Rightarrow> json option) \<Rightarrow> (json \<Rightarrow> string) \<Rightarrow> (string \<Rightarrow> 'w handler) \<Rightarrow>
   string \<Rightarrow> message list \<Rightarrow> tool_call list \<Rightarrow> 'w orchestrator \<Rightarrow>
   error + message list \<times> 'w orchestrator" where
  "handle_tool_calls loads dumps handlers session_id messages tcs st =
     (let new_messages = messages @ [assistant_message tcs]
      in case handle_calls loads dumps handlers (new_messages, st) tcs of
           Inl e \<Rightarrow> Inl e
         | Inr finished \<Rightarrow>
             Inr (fst finished, save_message session_id (fst finished) (snd finished)))"

text \<open>
  A call the loop can dispatch: it has an identifier, a function entry with a name, and
  arguments that are JSON text.  The calls \<^verbatim>\<open>transform_tool_calls\<close> produces, the only ones
  \<^verbatim>\<open>chat_completions\<close> hands to the orchestrator, are of this kind.
\<close>

definition dispatchable :: "(string \<Rightarrow> json option) \<Rightarrow> tool_call \<Rightarrow> bool" where
  "dispatchable loads call =
     (tc_id call \<noteq> None \<and>
      (case tc_function call of
         None \<Rightarrow> False
       | Some f \<Rightarrow>
           fn_name f \<noteq> None \<and>
           (case fn_arguments f of
              Some (JStr text) \<Rightarrow> loads text \<noteq> None
            | _ \<Rightarrow> False)))"

text \<open>
  A tool message answers a call: it has the tool role, the call's identifier and name, and
  for a name outside the registry its content is the serialised unknown-tool error.
\<close>

definition answers :: "(json \<Rightarrow> string) \<Rightarrow> tool_call \<Rightarrow> message \<Rightarrow> bool" where
  "answers dumps call msg =
     (role msg = Some ''tool'' \<and> tool_call_id msg = tc_id call \<and>
      name msg = Some (call_name call) \<and>
      (\<exists>text. content msg = Some (JStr text)) \<and>
      (call_name call \<in> set handler_names \<or>
       content msg = Some (JStr (dumps (error_result (''Unknown tool: '' @ call_name call))))))"

text \<open>A decoder, handlers that all raise, and a batch for the concrete run.\<close>

definition example_loads :: "string \<Rightarrow> json option" where
  "example_loads text = (if text = ''{}'' then Some (JObj []) else None)"

definition failing_handlers :: "string \<Rightarrow> unit handler" where
  "failing_handlers tool_name arguments w = (Inl ''missing 1 required positional argument'', w)"

definition example_call :: "string \<Rightarrow> string \<Rightarrow> tool_call" where
  "example_call call_id n =
     \<lparr>tc_id = Some call_id, tc_type = Some ''function'',
      tc_function = Some \<lparr>fn_name = Some n, fn_arguments = Some (JStr ''{}'')\<rparr>\<rparr>"

subsection \<open>Concrete conversations\<close>

text \<open>
  Messages for the concrete runs below: a text of 8000 characters (2000 estimated tokens),
  plain text messages, an assistant message with one tool call whose arguments are text,
  and the tool-role answer to that call.  None of them has arguments that are an object,
  so the estimates of the runs never consult the serialiser; the serialiser of the runs
  writes every value as \<^verbatim>\<open>{}\<close>.
\<close>

definition big_text :: string where
  "big_text = replicate 8000 (CHR ''x'')"

definition example_dumps :: "json \<Rightarrow> string" where
  "example_dumps v = ''{}''"

definition text_message :: "string \<Rightarrow> string \<Rightarrow> message" where
  "text_message r c =
     \<lparr>role = Some r, content = Some (JStr c), tool_calls = None,
      tool_call_id = None, name = None\<rparr>"

definition calling_message :: "string \<Rightarrow> string \<Rightarrow> message" where
  "calling_message n args =
     \<lparr>role = Some ''assistant'', content = None,
      tool_calls = Some [\<lparr>tc_id = Some ''call_0'', tc_type = Some ''function'',
                          tc_function = Some \<lparr>fn_name = Some n, fn_arguments = Some (JStr args)\<rparr>\<rparr>],
      tool_call_id = None, name = None\<rparr>"

definition result_message :: "string \<Rightarrow> string \<Rightarrow> message" where
  "result_message n c =
     \<lparr>role = Some ''tool'', content = Some (JStr c), tool_calls = None,
      tool_call_id = Some ''call_0'', name = Some n\<rparr>"




section \<open>Properties of the estimator\<close>

lemma foldl_call_tokens:
  "foldl (call_tokens dumps) tot tcs =
     tot + sum_list (map (\<lambda>c. counted_call_tokens dumps c - 5) tcs)"
proof (induction tcs arbitrary: tot)
  case Nil
  show ?case by simp
next
  case (Cons c tcs)
  have step: "call_tokens dumps tot c = tot + (counted_call_tokens dumps c - 5)"
    by (simp add: call_tokens_def counted_call_tokens_def call_name_def
        counted_arguments_def Let_def split: option.splits json.splits)
  show ?case by (simp add: Cons.IH step)
qed

lemma sum_list_minus_five:
  "sum_list (map (\<lambda>c. counted_call_tokens dumps c - 5) tcs) + int (length tcs) * 5 =
     sum_list (map (counted_call_tokens dumps) tcs)"
  by (induction tcs) (simp_all add: algebra_simps)

lemma message_tokens_eq:
  "message_tokens dumps tot msg =
     tot + counted_message_tokens dumps msg + tool_response_tokens msg"
proof -
  have calls: "foldl (call_tokens dumps) (t + int (length tcs) * 5) tcs =
      t + sum_list (map (counted_call_tokens dumps) tcs)" for t tcs
    using sum_list_minus_five [of dumps tcs] by (simp add: foldl_call_tokens)
  show ?thesis
    by (simp add: message_tokens_def counted_message_tokens_def tool_response_tokens_def
        content_text_def message_calls_def Let_def calls
        split: option.splits json.splits)
qed

lemma foldl_message_tokens:
  "foldl (message_tokens dumps) tot messages =
     tot + sum_list (map (\<lambda>m. counted_message_tokens dumps m + tool_response_tokens m) messages)"
  by (induction messages arbitrary: tot) (simp_all add: message_tokens_eq)

lemma estimate_sum:
  "estimate_token_count dumps messages =
     sum_list (map (\<lambda>m. counted_message_tokens dumps m + tool_response_tokens m) messages)"
  by (simp add: estimate_token_count_def foldl_message_tokens)

lemma counted_call_tokens_nonneg: "0 \<le> sum_list (map (counted_call_tokens dumps) tcs)"
  by (induction tcs) (simp_all add: counted_call_tokens_def)

lemma message_cost_ge_4: "4 \<le> counted_message_tokens dumps m + tool_response_tokens m"
  using counted_call_tokens_nonneg [of dumps "message_calls m"]
  by (simp add: counted_message_tokens_def tool_response_tokens_def)

lemma estimate_nonneg: "0 \<le> estimate_token_count dumps messages"
proof (induction messages)
  case Nil
  show ?case by (simp add: estimate_sum)
next
  case (Cons m messages)
  with message_cost_ge_4 [of dumps m] show ?case by (simp add: estimate_sum)
qed

lemma estimate_Cons:
  "estimate_token_count dumps (m # messages) =
     estimate_token_count dumps [m] + estimate_token_count dumps messages"
  by (simp add: estimate_sum)

lemma estimate_single_ge_4: "4 \<le> estimate_token_count dumps [m]"
  using message_cost_ge_4 [of dumps m] by (simp add: estimate_sum)

subsection \<open>Evaluating the concrete conversations\<close>

lemma length_big_text: "length big_text = 8000"
  by (simp add: big_text_def)

lemma big_text_not_short:
  "length s < 8000 \<Longrightarrow> big_text \<noteq> s"
  "length s < 8000 \<Longrightarrow> s \<noteq> big_text"
  using length_big_text by auto

lemmas example_defs =
  text_message_def calling_message_def result_message_def example_dumps_def

lemmas estimate_eval =
  estimate_sum counted_message_tokens_def tool_response_tokens_def content_text_def
  message_calls_def counted_call_tokens_def call_name_def counted_arguments_def
  length_big_text

lemmas identify_eval =
  identify_tool_sequences_def seq_step_def role_of_def has_tool_calls_def Let_def

lemmas manage_eval =
  manage_context_window_def system_part_def stripped_def pack_step_def
  original_position_def

subsection \<open>The estimator against the specification's formula\<close>

text \<open>
  Claim C2 says that the estimate is the specification's formula and nothing else.  The
  code has one more term: the block commented ``Tool response tokens'' counts the text of a
  tool-role message a second time.  A tool-role message with eight characters of content
  costs 8 tokens in the code and 6 by the formula.
\<close>

theorem token_estimator_counterexample:
  "estimate_token_count example_dumps [result_message ''builtin_ls'' ''abcdefgh''] = 8 \<and>
   spec_token_count example_dumps [result_message ''builtin_ls'' ''abcdefgh''] = 6"
  by (simp add: spec_token_count_def spec_message_tokens_def spec_call_tokens_def
      estimate_eval example_defs)

text \<open>
  Claim C2, amended: for every message list the estimate is exactly the sum over the
  messages of 4, a quarter of the length of the text content, per tool call 5 plus a
  quarter of the length of the name plus a quarter of the length of the arguments (text
  arguments as they are, object arguments serialised, arguments of any other type counted
  as nothing), and, for a tool-role message, a quarter of the length of its text content
  once more.
\<close>

theorem token_estimator_amended:
  "estimate_token_count dumps messages = amended_token_count dumps messages"
  by (simp add: estimate_sum amended_token_count_def)

text \<open>
  Where every tool call has text or an object as arguments, as the data model has it, the
  code's formula is the specification's plus the second count of the tool-role texts.
\<close>

lemma counted_arguments_payload:
  assumes "case tc_function call of
             None \<Rightarrow> True
           | Some f \<Rightarrow> (case fn_arguments f of
                          Some (JStr s) \<Rightarrow> True | Some (JObj kvs) \<Rightarrow> True | _ \<Rightarrow> False)"
  shows "counted_call_tokens dumps call = spec_call_tokens dumps call"
  using assms
  by (simp add: counted_call_tokens_def spec_call_tokens_def counted_arguments_def
      spec_serialized_arguments_def split: option.splits json.splits)

section \<open>Properties of the partition into sequences\<close>

lemma foldl_seq_step_concat:
  "concat (sequences (foldl seq_step st msgs)) @ current_sequence (foldl seq_step st msgs) =
     concat (sequences st) @ current_sequence st @ msgs"
  by (induction msgs arbitrary: st) (simp_all add: seq_step_def)

lemma is_tool_sequence_snoc:
  "is_tool_sequence s \<Longrightarrow> role_of m = ''tool'' \<Longrightarrow> is_tool_sequence (s @ [m])"
  by (cases s) (simp_all add: is_tool_sequence_def)

lemma seq_step_inv: "seq_inv st \<Longrightarrow> seq_inv (seq_step st msg)"
  by (auto simp: seq_inv_def seq_step_def sequence_shape_def is_tool_sequence_snoc
      is_tool_sequence_def le_Suc_eq split: if_splits list.splits)

lemma foldl_seq_step_inv: "seq_inv st \<Longrightarrow> seq_inv (foldl seq_step st msgs)"
  by (induction msgs arbitrary: st) (simp_all add: seq_step_inv)

lemma identify_concat: "concat (identify_tool_sequences messages) = messages"
  using foldl_seq_step_concat
    [of "\<lparr>sequences = [], current_sequence = [], in_tool_sequence = False\<rparr>" messages]
  by (cases "current_sequence (foldl seq_step
      \<lparr>sequences = [], current_sequence = [], in_tool_sequence = False\<rparr> messages) = []")
    (simp_all add: identify_tool_sequences_def Let_def)

lemma identify_shape: "list_all sequence_shape (identify_tool_sequences messages)"
proof -
  let ?st = "foldl seq_step
      \<lparr>sequences = [], current_sequence = [], in_tool_sequence = False\<rparr> messages"
  have "seq_inv ?st"
    by (rule foldl_seq_step_inv) (simp add: seq_inv_def)
  then show ?thesis
    by (auto simp: identify_tool_sequences_def Let_def seq_inv_def sequence_shape_def
        is_tool_sequence_def le_Suc_eq split: if_splits)
qed

lemma sequence_shape_nonempty: "sequence_shape s \<Longrightarrow> s \<noteq> []"
  by (auto simp: sequence_shape_def is_tool_sequence_def)

text \<open>
  Claim C9: for every message list, the sequences returned by
  \<^verbatim>\<open>_identify_tool_sequences\<close> are non-empty and their concatenation, in order, is exactly
  the input list: every message is in one sequence, at its position, none is duplicated
  and none is dropped.
\<close>

theorem identify_partition:
  "concat (identify_tool_sequences messages) = messages \<and>
   [] \<notin> set (identify_tool_sequences messages)"
  using identify_shape [of messages] sequence_shape_nonempty
  by (auto simp: identify_concat list_all_iff)

section \<open>Properties of the budgeter\<close>

subsection \<open>The sequence loop\<close>








subsection \<open>Positions in a list without repetitions\<close>

lemma index_of_nth: "x \<in> set xs \<Longrightarrow> xs ! index_of xs x = x"
  by (induction xs) auto

lemma original_position_inj: "inj_on (original_position xs) (set xs)"
proof (rule inj_onI)
  fix x y
  assume x: "x \<in> set xs" and y: "y \<in> set xs"
    and eq: "original_position xs x = original_position xs y"
  from x y eq have "index_of xs x = index_of xs y"
    by (simp add: original_position_def)
  then have "xs ! index_of xs x = xs ! index_of xs y" by (rule arg_cong)
  then show "x = y" by (simp only: index_of_nth [OF x] index_of_nth [OF y])
qed

lemma index_of_append_notin:
  "x \<notin> set xs \<Longrightarrow> index_of (xs @ ys) x = length xs + index_of ys x"
  by (induction xs) auto

lemma sorted_index_of:
  assumes "distinct xs" and "set ys \<inter> set xs = {}"
  shows "sorted (map (index_of (ys @ xs)) xs)"
  using assms
proof (induction xs arbitrary: ys)
  case Nil
  then show ?case by simp
next
  case (Cons x xs)
  have "sorted (map (index_of ((ys @ [x]) @ xs)) xs)"
    using Cons.prems by (intro Cons.IH) auto
  then have step: "sorted (map (index_of (ys @ x # xs)) xs)" by simp
  have "x \<notin> set ys" using Cons.prems(2) by auto
  then have here: "index_of (ys @ x # xs) x = length ys"
    by (simp add: index_of_append_notin)
  have later: "length ys \<le> index_of (ys @ x # xs) z" if "z \<in> set xs" for z
  proof -
    from that Cons.prems have "z \<notin> set ys" "z \<noteq> x" by auto
    then show ?thesis by (simp add: index_of_append_notin)
  qed
  from step here later show ?case by simp
qed

lemma sorted_original_position:
  assumes "distinct xs"
  shows "sorted (map (original_position xs) xs)"
proof -
  have eq: "map (original_position xs) xs = map (index_of xs) xs"
    by (rule map_cong) (simp_all add: original_position_def)
  have "sorted (map (index_of ([] @ xs)) xs)"
    by (rule sorted_index_of) (simp_all add: assms)
  then show ?thesis by (simp only: eq append_Nil)
qed

lemma sort_key_original_position:
  assumes xs: "distinct xs" and ys: "distinct ys" and sub: "set ys \<subseteq> set xs"
  shows "sort_key (original_position xs) ys = filter (\<lambda>x. x \<in> set ys) xs"
proof -
  let ?f = "original_position xs"
  let ?l = "sort_key ?f ys" and ?r = "filter (\<lambda>x. x \<in> set ys) xs"
  have inj: "inj_on ?f (set xs)" by (rule original_position_inj)
  have inj_ys: "inj_on ?f (set ys)" by (rule inj_on_subset [OF inj sub])
  have sets: "set ?l = set ?r" using sub by auto
  have set_r: "set ?r = set ys" using sub by auto
  have "sorted (map ?f ?l)" by (rule sorted_sort_key)
  moreover have "distinct (map ?f ?l)"
    using ys inj_ys by (simp add: distinct_map)
  moreover have "sorted (map ?f ?r)"
    by (rule sorted_filter) (rule sorted_original_position [OF xs])
  moreover have "distinct (map ?f ?r)"
    using xs inj_ys by (simp add: distinct_map set_r del: set_filter)
  moreover have "set (map ?f ?l) = set (map ?f ?r)"
    using sets by simp
  ultimately have "map ?f ?l = map ?f ?r"
    by (rule sorted_distinct_set_unique)
  moreover have "inj_on ?f (set ?l \<union> set ?r)"
    using inj_ys by (simp add: set_r del: set_filter)
  ultimately show ?thesis by (simp only: inj_on_map_eq_map)
qed

subsection \<open>What the two paths return\<close>

lemma pack_step_append:
  "pack_step dumps (res, r) s =
     (res @ fst (pack_step dumps ([], r) s), snd (pack_step dumps ([], r) s))"
  by (simp add: pack_step_def Let_def)

lemma foldl_pack_step_append:
  "fst (foldl (pack_step dumps) (res, r) ss) =
     res @ fst (foldl (pack_step dumps) ([], r) ss)"
proof (induction ss arbitrary: res r)
  case Nil
  show ?case by simp
next
  case (Cons s ss)
  let ?a = "fst (pack_step dumps ([], r) s)" and ?r' = "snd (pack_step dumps ([], r) s)"
  have "fst (foldl (pack_step dumps) (res, r) (s # ss)) =
      fst (foldl (pack_step dumps) (res @ ?a, ?r') ss)"
    by (simp add: pack_step_append [of dumps res r s])
  also have "\<dots> = (res @ ?a) @ fst (foldl (pack_step dumps) ([], ?r') ss)"
    by (rule Cons.IH)
  also have "\<dots> = res @ fst (foldl (pack_step dumps) (?a, ?r') ss)"
    by (simp only: Cons.IH [of ?a ?r'] append_assoc)
  also have "\<dots> = res @ fst (foldl (pack_step dumps) ([], r) (s # ss))"
    by simp
  finally show ?case .
qed

lemma pack_step_part:
  "set (fst (pack_step dumps ([], r) s)) \<subseteq> set s \<and>
   (distinct s \<longrightarrow> distinct (fst (pack_step dumps ([], r) s)))"
  by (simp add: pack_step_def Let_def)

lemma packed_subset:
  "set (fst (foldl (pack_step dumps) ([], r) ss)) \<subseteq> set (concat ss)"
proof (induction ss arbitrary: r)
  case Nil
  show ?case by simp
next
  case (Cons s ss)
  let ?a = "fst (pack_step dumps ([], r) s)" and ?r' = "snd (pack_step dumps ([], r) s)"
  have "fst (foldl (pack_step dumps) ([], r) (s # ss)) =
      ?a @ fst (foldl (pack_step dumps) ([], ?r') ss)"
    using foldl_pack_step_append [of dumps ?a ?r' ss] by simp
  with pack_step_part [of dumps r s] Cons.IH [of ?r'] show ?case by auto
qed

lemma packed_distinct:
  "distinct (concat ss) \<Longrightarrow> distinct (fst (foldl (pack_step dumps) ([], r) ss))"
proof (induction ss arbitrary: r)
  case Nil
  show ?case by simp
next
  case (Cons s ss)
  let ?a = "fst (pack_step dumps ([], r) s)" and ?r' = "snd (pack_step dumps ([], r) s)"
  let ?rest = "fst (foldl (pack_step dumps) ([], ?r') ss)"
  have eq: "fst (foldl (pack_step dumps) ([], r) (s # ss)) = ?a @ ?rest"
    using foldl_pack_step_append [of dumps ?a ?r' ss] by simp
  from Cons.prems have ds: "distinct s" and dss: "distinct (concat ss)"
    and disj: "set s \<inter> set (concat ss) = {}"
    by simp_all
  have "distinct ?a" and "set ?a \<subseteq> set s"
    using pack_step_part [of dumps r s] ds by simp_all
  moreover have "distinct ?rest" by (rule Cons.IH [OF dss])
  moreover have "set ?rest \<subseteq> set (concat ss)" by (rule packed_subset)
  ultimately have "distinct (?a @ ?rest)" using disj by auto
  with eq show ?case by simp
qed

lemma distinct_concat_rev: "distinct (concat (rev ss)) = distinct (concat ss)"
  by (induction ss) auto

lemma tail_fill_take:
  "\<exists>n. tail_fill dumps ys r acc = rev (take n ys) @ acc"
proof (induction ys arbitrary: r acc)
  case Nil
  show ?case by simp
next
  case (Cons y ys)
  show ?case
  proof (cases "estimate_token_count dumps [y] \<le> r")
    case True
    from Cons.IH [of "r - estimate_token_count dumps [y]" "y # acc"]
    obtain n where "tail_fill dumps ys (r - estimate_token_count dumps [y]) (y # acc) =
        rev (take n ys) @ y # acc" by blast
    with True have "tail_fill dumps (y # ys) r acc = rev (take (Suc n) (y # ys)) @ acc"
      by (simp add: Let_def)
    then show ?thesis by blast
  next
    case False
    then have "tail_fill dumps (y # ys) r acc = rev (take 0 (y # ys)) @ acc"
      by (simp add: Let_def)
    then show ?thesis by blast
  qed
qed

lemma tail_fill_suffix: "suffix (tail_fill dumps (rev xs) r []) xs"
proof -
  from tail_fill_take [of dumps "rev xs" r "[]"]
  obtain n where "tail_fill dumps (rev xs) r [] = rev (take n (rev xs))" by auto
  then have "tail_fill dumps (rev xs) r [] = drop (length xs - n) xs"
    by (simp add: rev_take)
  then show ?thesis by (simp add: suffix_drop)
qed

lemma system_part_stripped:
  "messages \<noteq> [] \<Longrightarrow> system_part messages @ stripped messages = messages"
  by (simp add: system_part_def stripped_def)

text \<open>
  When no two messages of the input are equal, the sort of the sequence path puts the
  retained messages back in their order in the input: the output is the system message,
  if there is one, followed by the retained messages of the rest in their order.  The
  output of every path is then a subsequence of the input, and a leading system message
  stays first.
\<close>

lemma sequence_path_output:
  assumes d: "distinct messages" and ne: "messages \<noteq> []"
  shows "sort_key (original_position (stripped messages))
           (fst (foldl (pack_step dumps) (system_part messages, r)
                  (rev (identify_tool_sequences (stripped messages))))) =
         system_part messages @
           filter (\<lambda>x. x \<in> set (fst (foldl (pack_step dumps) ([], r)
                    (rev (identify_tool_sequences (stripped messages))))))
             (stripped messages)"
proof -
  let ?xs = "stripped messages"
  let ?f = "original_position ?xs"
  let ?rest = "fst (foldl (pack_step dumps) ([], r) (rev (identify_tool_sequences ?xs)))"
  have whole: "system_part messages @ ?xs = messages"
    by (rule system_part_stripped [OF ne])
  with d have dxs: "distinct ?xs" and apart: "set (system_part messages) \<inter> set ?xs = {}"
    by (metis distinct_append)+
  have "distinct (concat (rev (identify_tool_sequences ?xs)))"
    using dxs by (simp only: distinct_concat_rev identify_concat)
  then have drest: "distinct ?rest" by (rule packed_distinct)
  have "set ?rest \<subseteq> set (concat (rev (identify_tool_sequences ?xs)))"
    by (rule packed_subset)
  also have "\<dots> = set (concat (identify_tool_sequences ?xs))" by simp
  finally have sub: "set ?rest \<subseteq> set ?xs" by (simp only: identify_concat)
  have sorted_rest: "sort_key ?f ?rest = filter (\<lambda>x. x \<in> set ?rest) ?xs"
    by (rule sort_key_original_position [OF dxs drest sub])
  have split: "fst (foldl (pack_step dumps) (system_part messages, r)
      (rev (identify_tool_sequences ?xs))) = system_part messages @ ?rest"
    by (rule foldl_pack_step_append)
  show ?thesis
  proof (cases "role (hd messages) = Some ''system''")
    case False
    then have "system_part messages = []" by (simp add: system_part_def)
    with split sorted_rest show ?thesis by simp
  next
    case True
    then have sys: "system_part messages = [hd messages]" by (simp add: system_part_def)
    with apart have "hd messages \<notin> set ?xs" by simp
    then have zero: "?f (hd messages) = 0" by (simp add: original_position_def)
    have "sort_key ?f (hd messages # ?rest) = insort_key ?f (hd messages) (sort_key ?f ?rest)"
      by simp
    also have "\<dots> = hd messages # sort_key ?f ?rest"
      by (rule insort_is_Cons) (simp add: zero)
    finally show ?thesis using split sys sorted_rest by simp
  qed
qed

lemma budgeter_order_distinct:
  assumes d: "distinct messages"
  shows "subseq (manage_context_window dumps messages max_tokens) messages"
proof (cases "messages = [] \<or> estimate_token_count dumps messages \<le> max_tokens")
  case True
  then show ?thesis by (auto simp: manage_context_window_def)
next
  case False
  then have ne: "messages \<noteq> []" and over: "\<not> estimate_token_count dumps messages \<le> max_tokens"
    by simp_all
  let ?r = "max_tokens - estimate_token_count dumps (system_part messages)"
  have whole: "system_part messages @ stripped messages = messages"
    by (rule system_part_stripped [OF ne])
  show ?thesis
  proof (cases "?r < 1000")
    case True
    with ne over have out: "manage_context_window dumps messages max_tokens =
        system_part messages @ tail_fill dumps (rev (stripped messages)) ?r []"
      by (simp add: manage_context_window_def Let_def)
    have "subseq (tail_fill dumps (rev (stripped messages)) ?r []) (stripped messages)"
      using tail_fill_suffix by (rule suffix_imp_subseq)
    then have "subseq (system_part messages @ tail_fill dumps (rev (stripped messages)) ?r [])
        (system_part messages @ stripped messages)"
      by (simp only: subseq_append')
    with out whole show ?thesis by simp
  next
    case False
    with ne over have out: "manage_context_window dumps messages max_tokens =
        sort_key (original_position (stripped messages))
          (fst (foldl (pack_step dumps) (system_part messages, ?r)
                 (rev (identify_tool_sequences (stripped messages)))))"
      by (simp add: manage_context_window_def Let_def)
    let ?kept = "filter (\<lambda>x. x \<in> set (fst (foldl (pack_step dumps) ([], ?r)
         (rev (identify_tool_sequences (stripped messages)))))) (stripped messages)"
    have "subseq ?kept (stripped messages)" by (rule subseq_filter_left)
    then have "subseq (system_part messages @ ?kept) (system_part messages @ stripped messages)"
      by (simp only: subseq_append')
    with out sequence_path_output [OF d ne, of dumps ?r] whole show ?thesis by simp
  qed
qed

lemma budgeter_system_first_distinct:
  assumes d: "distinct messages" and ne: "messages \<noteq> []"
    and sys: "role (hd messages) = Some ''system''"
  shows "\<exists>rest. manage_context_window dumps messages max_tokens = hd messages # rest"
proof (cases "estimate_token_count dumps messages \<le> max_tokens")
  case True
  with ne have "manage_context_window dumps messages max_tokens = hd messages # tl messages"
    by (simp add: manage_context_window_def)
  then show ?thesis by blast
next
  case over: False
  let ?r = "max_tokens - estimate_token_count dumps (system_part messages)"
  from sys have part: "system_part messages = [hd messages]" by (simp add: system_part_def)
  show ?thesis
  proof (cases "?r < 1000")
    case True
    with ne over part have "manage_context_window dumps messages max_tokens =
        hd messages # tail_fill dumps (rev (stripped messages)) ?r []"
      by (simp add: manage_context_window_def Let_def)
    then show ?thesis by blast
  next
    case False
    with ne over have "manage_context_window dumps messages max_tokens =
        sort_key (original_position (stripped messages))
          (fst (foldl (pack_step dumps) (system_part messages, ?r)
                 (rev (identify_tool_sequences (stripped messages)))))"
      by (simp add: manage_context_window_def Let_def)
    with sequence_path_output [OF d ne, of dumps ?r] part show ?thesis by simp
  qed
qed



subsection \<open>Sequence atomicity\<close>




subsection \<open>Order of the output\<close>

text \<open>
  Claim C3: any two messages retained by \<^verbatim>\<open>manage_context_window\<close> are in the output in
  the order they have in the input.  The code sorts the retained messages by
  \<^verbatim>\<open>messages.index(x)\<close>, the position of the first message equal to \<open>x\<close>, so a message
  equal to an earlier one is moved next to it.  In the conversation ``(long text), yes, ok,
  yes'' with a budget of 1000 the three short messages are retained and come out as ``yes,
  yes, ok'', which is not a subsequence of the input.
\<close>

theorem order_preservation_failing_input:
  "manage_context_window example_dumps
     [text_message ''user'' big_text, text_message ''user'' ''yes'',
      text_message ''assistant'' ''ok'', text_message ''user'' ''yes''] 1000 =
     [text_message ''user'' ''yes'', text_message ''user'' ''yes'',
      text_message ''assistant'' ''ok''] \<and>
   \<not> subseq
     [text_message ''user'' ''yes'', text_message ''user'' ''yes'',
      text_message ''assistant'' ''ok'']
     [text_message ''user'' big_text, text_message ''user'' ''yes'',
      text_message ''assistant'' ''ok'', text_message ''user'' ''yes'']"
  by (simp add: manage_eval identify_eval estimate_eval example_defs big_text_not_short)

text \<open>
  Claim C4: a leading system message is in the output and is its first element, for every
  budget of at least its own cost.  When the system message occurs again later in the
  conversation, the sort key of the reserved system message is the position of that later
  copy, and the messages before the copy are sorted in front of it.
\<close>

theorem system_preservation_failing_input:
  "role (hd [text_message ''system'' ''sys'', text_message ''user'' ''hi'',
             text_message ''system'' ''sys'', text_message ''user'' big_text]) = Some ''system'' \<and>
   estimate_token_count example_dumps [text_message ''system'' ''sys''] \<le> 1004 \<and>
   manage_context_window example_dumps
     [text_message ''system'' ''sys'', text_message ''user'' ''hi'',
      text_message ''system'' ''sys'', text_message ''user'' big_text] 1004 =
     [text_message ''user'' ''hi'', text_message ''system'' ''sys'',
      text_message ''system'' ''sys'']"
  by (simp add: manage_eval identify_eval estimate_eval example_defs big_text_not_short)

subsection \<open>A system message larger than the budget\<close>

lemma tail_fill_no_budget:
  "remaining_tokens < 4 \<Longrightarrow> tail_fill dumps msgs remaining_tokens acc = acc"
proof (cases msgs)
  case Nil
  then show ?thesis by simp
next
  case (Cons m rest)
  assume "remaining_tokens < 4"
  with estimate_single_ge_4 [of dumps m] Cons show ?thesis by (simp add: Let_def)
qed

text \<open>
  Claim C5 says that when the leading system message alone exceeds the budget, the output
  still has the most recent messages that fit.  The code keeps the system message without
  a test and fills the tail against what is left of the budget, which is negative.  With a
  budget of 10, a system message of 2004 tokens and a user message of 4 tokens, the user
  message fits the budget and is not returned.
\<close>

theorem budget_exhaustion_counterexample:
  "role (text_message ''system'' big_text) = Some ''system'' \<and>
   10 < estimate_token_count example_dumps [text_message ''system'' big_text] \<and>
   estimate_token_count example_dumps [text_message ''user'' ''hi''] \<le> 10 \<and>
   manage_context_window example_dumps
     [text_message ''system'' big_text, text_message ''user'' ''hi''] 10 =
     [text_message ''system'' big_text]"
  by (simp add: manage_eval estimate_eval example_defs)

text \<open>
  Claim C5, amended: for every message list whose leading system message alone exceeds the
  budget, \<^verbatim>\<open>manage_context_window\<close> returns exactly that system message: the tail-fill runs
  against a negative remaining budget and keeps nothing.  The returned list is therefore
  never empty.  An empty input yields an empty output.
\<close>

theorem budget_exhaustion_system_only:
  assumes "role s = Some ''system''"
    and "max_tokens < estimate_token_count dumps [s]"
  shows "manage_context_window dumps (s # rest) max_tokens = [s] \<and>
         manage_context_window dumps [] max_tokens = []"
proof -
  have over: "\<not> estimate_token_count dumps (s # rest) \<le> max_tokens"
    using assms(2) estimate_nonneg [of dumps rest] estimate_Cons [of dumps s rest] by linarith
  have low: "max_tokens - estimate_token_count dumps [s] < 4"
    using assms(2) by linarith
  have "manage_context_window dumps (s # rest) max_tokens = [s]"
    using over low assms(1) tail_fill_no_budget [OF low]
    by (simp add: manage_context_window_def system_part_def stripped_def Let_def)
  moreover have "manage_context_window dumps [] max_tokens = []"
    by (simp add: manage_context_window_def)
  ultimately show ?thesis by simp
qed

theorem budget_exhaustion_system_only_witness:
  "role (text_message ''system'' big_text) = Some ''system'' \<and>
   10 < estimate_token_count example_dumps [text_message ''system'' big_text] \<and>
   manage_context_window example_dumps
     (text_message ''system'' big_text # [text_message ''user'' ''hi'']) 10 =
     [text_message ''system'' big_text] \<and>
   manage_context_window example_dumps [] 10 = []"
proof -
  have h1: "role (text_message ''system'' big_text) = Some ''system''"
    by (simp add: text_message_def)
  have h2: "10 < estimate_token_count example_dumps [text_message ''system'' big_text]"
    by (simp add: estimate_eval example_defs)
  from budget_exhaustion_system_only [OF h1 h2] h1 h2 show ?thesis by blast
qed

section \<open>Properties of the protocol translator\<close>

subsection \<open>Stream framing\<close>

lemmas stream_eval =
  chunk_frames_def message_get_def has_calls_def truthy_entry_def get_or_def
  openai_chunk_def empty_delta_def content_line_def done_line_def
  proxy_chunk_def process_streaming_response_def Let_def

text \<open>
  Claim C6 says that for the backend lines \<^verbatim>\<open>{message:{content:"Hi"}}\<close>,
  \<^verbatim>\<open>{message:{content:" there"}}\<close>, \<^verbatim>\<open>{done:true}\<close> the stream translator emits the two
  content frames, the finish frame and the sentinel, and no other frame.  The repository
  has two stream translators.  \<^verbatim>\<open>process_streaming_response\<close> of \<^verbatim>\<open>proxy.py\<close> emits five
  frames: it starts with a frame whose delta announces the role.
\<close>

theorem stream_framing_counterexample:
  "process_streaming_response ''chatcmpl-1'' 0
      [content_line ''Hi'', content_line '' there'', done_line] ''llama3.1'' =
     ([Data (proxy_chunk ''chatcmpl-1'' 0 ''llama3.1''
               (empty_delta\<lparr>delta_role := Some ''assistant''\<rparr>) None),
       Data (proxy_chunk ''chatcmpl-1'' 0 ''llama3.1''
               (empty_delta\<lparr>delta_content := Some (JStr ''Hi'')\<rparr>) None),
       Data (proxy_chunk ''chatcmpl-1'' 0 ''llama3.1''
               (empty_delta\<lparr>delta_content := Some (JStr '' there'')\<rparr>) None),
       Data (proxy_chunk ''chatcmpl-1'' 0 ''llama3.1'' empty_delta (Some ''stop'')),
       Done], None) \<and>
   length (fst (process_streaming_response ''chatcmpl-1'' 0
      [content_line ''Hi'', content_line '' there'', done_line] ''llama3.1'')) = 5"
  by (simp add: stream_eval)

text \<open>
  Claim C6, amended: for these three backend lines \<^verbatim>\<open>transform_ollama_stream\<close> of
  \<^verbatim>\<open>main.py\<close> emits exactly a delta ``Hi'', a delta `` there'', an empty delta with finish
  reason \<^verbatim>\<open>stop\<close> and the sentinel, in that order and without raising;
  \<^verbatim>\<open>process_streaming_response\<close> of \<^verbatim>\<open>proxy.py\<close> emits the same four frames in the same
  order, without raising, after one first frame whose delta is the role \<^verbatim>\<open>assistant\<close>.
\<close>

theorem stream_framing:
  "transform_ollama_stream dumps [content_line ''Hi'', content_line '' there'', done_line] =
     ([Data \<lparr>ck_id = JStr [], ck_object = ''chat.completion.chunk'', ck_created = JNum 0,
              ck_model = JStr [], ck_index = 0,
              ck_delta = \<lparr>delta_role = None, delta_content = Some (JStr ''Hi''),
                          delta_tool_calls = None\<rparr>,
              ck_finish_reason = None\<rparr>,
       Data \<lparr>ck_id = JStr [], ck_object = ''chat.completion.chunk'', ck_created = JNum 0,
              ck_model = JStr [], ck_index = 0,
              ck_delta = \<lparr>delta_role = None, delta_content = Some (JStr '' there''),
                          delta_tool_calls = None\<rparr>,
              ck_finish_reason = None\<rparr>,
       Data \<lparr>ck_id = JStr [], ck_object = ''chat.completion.chunk'', ck_created = JNum 0,
              ck_model = JStr [], ck_index = 0,
              ck_delta = \<lparr>delta_role = None, delta_content = None, delta_tool_calls = None\<rparr>,
              ck_finish_reason = Some ''stop''\<rparr>,
       Done], None) \<and>
   process_streaming_response chat_id creation_time
       [content_line ''Hi'', content_line '' there'', done_line] model_name =
     ([Data \<lparr>ck_id = JStr chat_id, ck_object = ''chat.completion.chunk'',
              ck_created = JNum creation_time, ck_model = JStr model_name, ck_index = 0,
              ck_delta = \<lparr>delta_role = Some ''assistant'', delta_content = None,
                          delta_tool_calls = None\<rparr>,
              ck_finish_reason = None\<rparr>,
       Data \<lparr>ck_id = JStr chat_id, ck_object = ''chat.completion.chunk'',
              ck_created = JNum creation_time, ck_model = JStr model_name, ck_index = 0,
              ck_delta = \<lparr>delta_role = None, delta_content = Some (JStr ''Hi''),
                          delta_tool_calls = None\<rparr>,
              ck_finish_reason = None\<rparr>,
       Data \<lparr>ck_id = JStr chat_id, ck_object = ''chat.completion.chunk'',
              ck_created = JNum creation_time, ck_model = JStr model_name, ck_index = 0,
              ck_delta = \<lparr>delta_role = None, delta_content = Some (JStr '' there''),
                          delta_tool_calls = None\<rparr>,
              ck_finish_reason = None\<rparr>,
       Data \<lparr>ck_id = JStr chat_id, ck_object = ''chat.completion.chunk'',
              ck_created = JNum creation_time, ck_model = JStr model_name, ck_index = 0,
              ck_delta = \<lparr>delta_role = None, delta_content = None, delta_tool_calls = None\<rparr>,
              ck_finish_reason = Some ''stop''\<rparr>,
       Done], None)"
  by (simp add: stream_eval)

text \<open>
  A line whose message is null ends both generators with \<^verbatim>\<open>AttributeError\<close>: neither
  emits the sentinel, and \<^verbatim>\<open>proxy.py\<close> has emitted its role frame by then.
\<close>

lemma stream_null_message:
  "transform_ollama_stream dumps [Parsed null_message_response, done_line] =
     ([], Some AttributeError) \<and>
   process_streaming_response chat_id creation_time
       [Parsed null_message_response, done_line] model_name =
     ([Data (proxy_chunk chat_id creation_time model_name
               (empty_delta\<lparr>delta_role := Some ''assistant''\<rparr>) None)],
      Some AttributeError)"
  by (simp add: stream_eval null_message_response_def)

subsection \<open>Non-streaming responses\<close>






section \<open>Properties of the tool orchestrator\<close>

lemma execute_tool_unknown:
  "tool_name \<notin> set handler_names \<Longrightarrow>
     execute_tool handlers tool_name arguments w =
       (error_result (''Unknown tool: '' @ tool_name), w)"
  by (simp add: execute_tool_def)

lemma handle_call_dispatchable:
  assumes "dispatchable loads call"
  shows "\<exists>msg st'. handle_call loads dumps handlers (msgs, st) call = Inr (msgs @ [msg], st')
           \<and> answers dumps call msg"
proof -
  from assms obtain call_id f tool_name body tool_arguments where
    parts: "tc_id call = Some call_id" "tc_function call = Some f"
      "fn_name f = Some tool_name" "fn_arguments f = Some (JStr body)"
      "loads body = Some tool_arguments"
    by (auto simp: dispatchable_def split: option.splits json.splits)
  show ?thesis
  proof (cases "tool_name \<in> set handler_names")
    case True
    with parts show ?thesis
      by (simp add: handle_call_def Let_def answers_def call_name_def tool_message_def)
  next
    case False
    with parts show ?thesis
      by (simp add: handle_call_def Let_def answers_def call_name_def tool_message_def
          execute_tool_unknown)
  qed
qed

lemma handle_calls_dispatchable:
  assumes "list_all (dispatchable loads) calls"
  shows "\<exists>tool_messages st'.
           handle_calls loads dumps handlers (msgs, st) calls = Inr (msgs @ tool_messages, st')
           \<and> list_all2 (answers dumps) calls tool_messages"
  using assms
proof (induction calls arbitrary: msgs st)
  case Nil
  then show ?case by simp
next
  case (Cons call calls)
  from Cons.prems have d: "dispatchable loads call" and rest: "list_all (dispatchable loads) calls"
    by simp_all
  from handle_call_dispatchable [OF d, of dumps handlers msgs st]
  obtain msg st1 where one:
      "handle_call loads dumps handlers (msgs, st) call = Inr (msgs @ [msg], st1)"
      "answers dumps call msg"
    by blast
  from Cons.IH [OF rest, of "msgs @ [msg]" st1]
  obtain tms st2 where more:
      "handle_calls loads dumps handlers (msgs @ [msg], st1) calls = Inr ((msgs @ [msg]) @ tms, st2)"
      "list_all2 (answers dumps) calls tms"
    by blast
  have "handle_calls loads dumps handlers (msgs, st) (call # calls) = Inr (msgs @ (msg # tms), st2)"
    using one(1) more(1) by simp
  moreover have "list_all2 (answers dumps) (call # calls) (msg # tms)"
    using one(2) more(2) by simp
  ultimately show ?case by blast
qed

lemma transform_call_dispatchable:
  assumes round: "\<forall>v. loads (dumps v) \<noteq> None"
    and c: "transform_call dumps i call = Inr c"
  shows "dispatchable loads c"
proof -
  from c obtain f n a where parts: "tc_function call = Some f" "fn_name f = Some n"
      "fn_arguments f = Some a"
    and c_eq: "c = \<lparr>tc_id = Some (case tc_id call of None \<Rightarrow> ''call_'' @ str_nat i | Some x \<Rightarrow> x),
         tc_type = Some ''function'',
         tc_function = Some \<lparr>fn_name = Some n, fn_arguments = Some (JStr (dumps a))\<rparr>\<rparr>"
    by (auto simp: transform_call_def split: option.splits)
  from round have "loads (dumps a) \<noteq> None" by simp
  then show ?thesis by (simp add: c_eq dispatchable_def)
qed

lemma transform_tool_calls_from_dispatchable:
  assumes "\<forall>v. loads (dumps v) \<noteq> None"
    and "transform_tool_calls_from dumps i calls = Inr cs"
  shows "list_all (dispatchable loads) cs"
  using assms(2)
proof (induction calls arbitrary: i cs)
  case Nil
  then show ?case by simp
next
  case (Cons call calls)
  from Cons.prems obtain c cs' where
    c: "transform_call dumps i call = Inr c"
    and cs': "transform_tool_calls_from dumps (Suc i) calls = Inr cs'"
    and eq: "cs = c # cs'"
    by (auto split: sum.splits)
  from transform_call_dispatchable [OF assms(1) c] Cons.IH [OF cs'] eq
  show ?case by simp
qed

text \<open>
  Claim C8: for every batch of tool calls, a call that names a capability outside the
  registry is answered by a tool-role message whose content is the structured unknown-tool
  error, and no failure of a single call (unknown name, arguments that do not match,
  an exception of the handler) raises out of \<^verbatim>\<open>handle_tool_calls\<close>, stops the remaining
  calls, or keeps the log from being saved: the result is the old log, one assistant
  message with the calls and one tool message per call, in order, tagged with the call's
  identifier and name, and the store holds that log for the session.  The handlers are
  arbitrary, so they may raise on any call.  The calls are those the orchestrator is given:
  with an identifier, a name and JSON text as arguments.
\<close>

theorem tool_failures_contained:
  assumes "list_all (dispatchable loads) tcs"
  shows "\<exists>tool_messages st'.
           handle_tool_calls loads dumps handlers session_id messages tcs st =
             Inr (messages @ [assistant_message tcs] @ tool_messages, st')
           \<and> list_all2 (answers dumps) tcs tool_messages
           \<and> store st' session_id = Some (messages @ [assistant_message tcs] @ tool_messages)"
proof -
  from handle_calls_dispatchable [OF assms, of dumps handlers "messages @ [assistant_message tcs]" st]
  obtain tms st1 where run:
      "handle_calls loads dumps handlers (messages @ [assistant_message tcs], st) tcs =
         Inr ((messages @ [assistant_message tcs]) @ tms, st1)"
      "list_all2 (answers dumps) tcs tms"
    by blast
  let ?log = "messages @ [assistant_message tcs] @ tms"
  have "handle_tool_calls loads dumps handlers session_id messages tcs st =
      Inr (?log, save_message session_id ?log st1)"
    using run(1) by (simp add: handle_tool_calls_def Let_def)
  moreover have "store (save_message session_id ?log st1) session_id = Some ?log"
    by (simp add: save_message_def)
  ultimately show ?thesis using run(2) by blast
qed

theorem tool_failures_contained_witness:
  "list_all (dispatchable example_loads)
      [example_call ''call_0'' ''no_such_tool'', example_call ''call_1'' ''builtin_ls''] \<and>
   handle_tool_calls example_loads example_dumps failing_handlers ''s1'' []
      [example_call ''call_0'' ''no_such_tool'', example_call ''call_1'' ''builtin_ls'']
      \<lparr>store = Map.empty, tool_executions = (\<lambda>n. 0), world = ()\<rparr> =
     Inr ([assistant_message
             [example_call ''call_0'' ''no_such_tool'', example_call ''call_1'' ''builtin_ls''],
           tool_message ''call_0'' ''no_such_tool'' ''{}'',
           tool_message ''call_1'' ''builtin_ls'' ''{}''],
          \<lparr>store = [''s1'' \<mapsto>
               [assistant_message
                  [example_call ''call_0'' ''no_such_tool'', example_call ''call_1'' ''builtin_ls''],
                tool_message ''call_0'' ''no_such_tool'' ''{}'',
                tool_message ''call_1'' ''builtin_ls'' ''{}'']],
            tool_executions = (\<lambda>n. 0)(''no_such_tool'' := 1, ''builtin_ls'' := 1),
            world = ()\<rparr>) \<and>
   (\<exists>tool_messages st'.
      handle_tool_calls example_loads example_dumps failing_handlers ''s1'' []
        [example_call ''call_0'' ''no_such_tool'', example_call ''call_1'' ''builtin_ls'']
        \<lparr>store = Map.empty, tool_executions = (\<lambda>n. 0), world = ()\<rparr> =
        Inr ([] @ [assistant_message
                     [example_call ''call_0'' ''no_such_tool'',
                      example_call ''call_1'' ''builtin_ls'']] @ tool_messages, st')
      \<and> list_all2 (answers example_dumps)
           [example_call ''call_0'' ''no_such_tool'', example_call ''call_1'' ''builtin_ls'']
           tool_messages
      \<and> store st' ''s1'' =
           Some ([] @ [assistant_message
                        [example_call ''call_0'' ''no_such_tool'',
                         example_call ''call_1'' ''builtin_ls'']] @ tool_messages))"
proof -
  let ?tcs = "[example_call ''call_0'' ''no_such_tool'', example_call ''call_1'' ''builtin_ls'']"
  have h: "list_all (dispatchable example_loads) ?tcs"
    by (simp add: dispatchable_def example_call_def example_loads_def)
  have run: "handle_tool_calls example_loads example_dumps failing_handlers ''s1'' [] ?tcs
      \<lparr>store = Map.empty, tool_executions = (\<lambda>n. 0), world = ()\<rparr> =
     Inr ([assistant_message ?tcs,
           tool_message ''call_0'' ''no_such_tool'' ''{}'',
           tool_message ''call_1'' ''builtin_ls'' ''{}''],
          \<lparr>store = [''s1'' \<mapsto>
               [assistant_message ?tcs,
                tool_message ''call_0'' ''no_such_tool'' ''{}'',
                tool_message ''call_1'' ''builtin_ls'' ''{}'']],
            tool_executions = (\<lambda>n. 0)(''no_such_tool'' := 1, ''builtin_ls'' := 1),
            world = ()\<rparr>)"
    by (simp add: handle_tool_calls_def handle_call_def Let_def example_call_def
        example_loads_def execute_tool_def handler_names_def failing_handlers_def
        example_dumps_def save_message_def)
  from tool_failures_contained [OF h, of example_dumps failing_handlers "''s1''" "[]"
      "\<lparr>store = Map.empty, tool_executions = (\<lambda>n. 0), world = ()\<rparr>"] h run
  show ?thesis by blast
qed

section \<open>Properties of the file tools\<close>

lemma resolve_path_outside:
  "\<not> prefix (os_resolve os fs workspace) (os_resolve os fs (os_joinpath os workspace filepath))
   \<Longrightarrow> resolve_path os workspace fs filepath =
         Inl (ValueError (''Path traversal detected: '' @ filepath))"
  by (simp add: resolve_path_def)

text \<open>
  Claim C10: for every file path, \<^verbatim>\<open>_resolve_path\<close> either returns the resolved path, whose
  string form starts with the string form of the resolved workspace, or raises
  \<^verbatim>\<open>ValueError\<close>; and for a path whose resolved form fails that prefix test the file
  tools \<^verbatim>\<open>read_file\<close>, \<^verbatim>\<open>edit_existing_file\<close>, \<^verbatim>\<open>create_new_file\<close> and
  \<^verbatim>\<open>list_directory\<close> return the structured error, read nothing and leave the file system
  as it was.  This holds for every platform: the test comes before any file operation.
\<close>

theorem path_traversal_guard:
  "(case resolve_path os workspace fs filepath of
      Inr path \<Rightarrow>
        prefix (os_resolve os fs workspace) path \<and>
        path = os_resolve os fs (os_joinpath os workspace filepath)
    | Inl e \<Rightarrow>
        e = ValueError (''Path traversal detected: '' @ filepath) \<and>
        \<not> prefix (os_resolve os fs workspace)
             (os_resolve os fs (os_joinpath os workspace filepath))) \<and>
   (\<not> prefix (os_resolve os fs workspace)
         (os_resolve os fs (os_joinpath os workspace filepath)) \<longrightarrow>
      read_file os workspace fs filepath =
        error_result (''Path traversal detected: '' @ filepath) \<and>
      edit_existing_file os workspace fs filepath changes =
        (error_result (''Path traversal detected: '' @ filepath), fs) \<and>
      create_new_file os workspace fs filepath contents =
        (error_result (''Path traversal detected: '' @ filepath), fs) \<and>
      list_directory os workspace fs filepath recursive =
        error_result (''Path traversal detected: '' @ filepath))"
proof -
  have first: "(case resolve_path os workspace fs filepath of
      Inr path \<Rightarrow>
        prefix (os_resolve os fs workspace) path \<and>
        path = os_resolve os fs (os_joinpath os workspace filepath)
    | Inl e \<Rightarrow>
        e = ValueError (''Path traversal detected: '' @ filepath) \<and>
        \<not> prefix (os_resolve os fs workspace)
             (os_resolve os fs (os_joinpath os workspace filepath)))"
    by (simp add: resolve_path_def Let_def)
  have second: "read_file os workspace fs filepath =
        error_result (''Path traversal detected: '' @ filepath) \<and>
      edit_existing_file os workspace fs filepath changes =
        (error_result (''Path traversal detected: '' @ filepath), fs) \<and>
      create_new_file os workspace fs filepath contents =
        (error_result (''Path traversal detected: '' @ filepath), fs) \<and>
      list_directory os workspace fs filepath recursive =
        error_result (''Path traversal detected: '' @ filepath)"
    if "\<not> prefix (os_resolve os fs workspace)
         (os_resolve os fs (os_joinpath os workspace filepath))"
    using resolve_path_outside [OF that]
    by (simp add: read_file_def edit_existing_file_def create_new_file_def list_directory_def)
  from first second show ?thesis by blast
qed

theorem path_traversal_guard_witness:
  "\<not> prefix (os_resolve plain_platform [''/tmp/agent_workspace/a.txt'' \<mapsto> ''a''] ''/tmp/agent_workspace'')
       (os_resolve plain_platform [''/tmp/agent_workspace/a.txt'' \<mapsto> ''a'']
          (os_joinpath plain_platform ''/tmp/agent_workspace'' ''/etc/passwd'')) \<and>
   resolve_path plain_platform ''/tmp/agent_workspace''
       [''/tmp/agent_workspace/a.txt'' \<mapsto> ''a''] ''/etc/passwd'' =
     Inl (ValueError ''Path traversal detected: /etc/passwd'') \<and>
   resolve_path plain_platform ''/tmp/agent_workspace''
       [''/tmp/agent_workspace/a.txt'' \<mapsto> ''a''] ''a.txt'' =
     Inr ''/tmp/agent_workspace/a.txt'' \<and>
   read_file plain_platform ''/tmp/agent_workspace''
       [''/tmp/agent_workspace/a.txt'' \<mapsto> ''a''] ''a.txt'' =
     JObj [(''content'', JStr ''a'')] \<and>
   read_file plain_platform ''/tmp/agent_workspace''
       [''/tmp/agent_workspace/a.txt'' \<mapsto> ''a''] ''/etc/passwd'' =
     error_result ''Path traversal detected: /etc/passwd'' \<and>
   edit_existing_file plain_platform ''/tmp/agent_workspace''
       [''/tmp/agent_workspace/a.txt'' \<mapsto> ''a''] ''/etc/passwd'' ''x'' =
     (error_result ''Path traversal detected: /etc/passwd'',
      [''/tmp/agent_workspace/a.txt'' \<mapsto> ''a'']) \<and>
   create_new_file plain_platform ''/tmp/agent_workspace''
       [''/tmp/agent_workspace/a.txt'' \<mapsto> ''a''] ''/etc/passwd'' ''x'' =
     (error_result ''Path traversal detected: /etc/passwd'',
      [''/tmp/agent_workspace/a.txt'' \<mapsto> ''a'']) \<and>
   list_directory plain_platform ''/tmp/agent_workspace''
       [''/tmp/agent_workspace/a.txt'' \<mapsto> ''a''] ''/etc/passwd'' False =
     error_result ''Path traversal detected: /etc/passwd''"
proof -
  let ?fs = "[''/tmp/agent_workspace/a.txt'' \<mapsto> ''a'']"
  have out: "\<not> prefix (os_resolve plain_platform ?fs ''/tmp/agent_workspace'')
       (os_resolve plain_platform ?fs
          (os_joinpath plain_platform ''/tmp/agent_workspace'' ''/etc/passwd''))"
    by (simp add: plain_platform_def)
  have inside: "resolve_path plain_platform ''/tmp/agent_workspace'' ?fs ''a.txt'' =
     Inr ''/tmp/agent_workspace/a.txt''"
    by (simp add: resolve_path_def plain_platform_def)
  have rd: "read_file plain_platform ''/tmp/agent_workspace'' ?fs ''a.txt'' =
     JObj [(''content'', JStr ''a'')]"
    by (simp add: read_file_def inside) (simp add: plain_platform_def)
  from path_traversal_guard [where os = plain_platform and workspace = "''/tmp/agent_workspace''"
      and fs = ?fs and filepath = "''/etc/passwd''" and changes = "''x''" and contents = "''x''"
      and recursive = False] out inside rd
  show ?thesis by (simp add: resolve_path_outside)
qed

end
